theory Spec2Isabelle
  imports Main "HOL-Library.Word" "HOL-Library.Log_Nat"
begin

section \<open>Data model\<close>

text \<open>
  An image buffer is a size and one RGBA pixel per coordinate inside the size; every
  channel is a byte. Only the pixels at \<open>x < width\<close>, \<open>y < height\<close> belong to the
  buffer. Every transform of \<^verbatim>\<open>iconmaker.py\<close> starts with
  \<^verbatim>\<open>image.convert("RGBA")\<close>, which copies a buffer that is RGBA already, so the
  model works on RGBA buffers throughout.
\<close>

type_synonym u8 = "8 word"

type_synonym rgba = "u8 \<times> u8 \<times> u8 \<times> u8"

record image =
  isize :: "nat \<times> nat"
  pix :: "nat \<Rightarrow> nat \<Rightarrow> rgba"

text \<open>
  The exceptions the modelled code can raise. \<open>OSError\<close> and \<open>InvalidFileException\<close>
  come from opening, reading, decoding and writing files.
\<close>

datatype error =
    ValueError
  | ZeroDivisionError
  | AttributeError
  | TypeError
  | OSError
  | InvalidFileException

definition and_then :: "error + 'a \<Rightarrow> ('a \<Rightarrow> error + 'b) \<Rightarrow> error + 'b" where
  "and_then m f = (case m of Inl e \<Rightarrow> Inl e | Inr x \<Rightarrow> f x)"

definition red :: "rgba \<Rightarrow> u8" where
  "red p = fst p"

definition green :: "rgba \<Rightarrow> u8" where
  "green p = fst (snd p)"

definition blue :: "rgba \<Rightarrow> u8" where
  "blue p = fst (snd (snd p))"

definition alpha :: "rgba \<Rightarrow> u8" where
  "alpha p = snd (snd (snd p))"

definition iwidth :: "image \<Rightarrow> nat" where
  "iwidth im = fst (isize im)"

definition iheight :: "image \<Rightarrow> nat" where
  "iheight im = snd (isize im)"

text \<open>Two buffers are the same when they agree on the size and on every pixel inside it.\<close>

definition same_buffer :: "image \<Rightarrow> image \<Rightarrow> bool" where
  "same_buffer a b \<longleftrightarrow>
     isize a = isize b \<and> (\<forall>x<iwidth a. \<forall>y<iheight a. pix a x y = pix b x y)"

section \<open>Colour descriptors\<close>

text \<open>
  The overlay and duotone transforms hand the descriptor string to the imaging library
  (\<^verbatim>\<open>Image.new("RGBA", size, overlay_hex)\<close>, \<^verbatim>\<open>ImageOps.colorize\<close>), whose
  parser lower-cases it and accepts \<^verbatim>\<open>#rgb\<close>, \<^verbatim>\<open>#rgba\<close>, \<^verbatim>\<open>#rrggbb\<close> and
  \<^verbatim>\<open>#rrggbbaa\<close> (the pattern's \<^verbatim>\<open>$\<close> also matches before one final newline).
  The library's colour names and functional notations are not descriptors of this
  program (a descriptor is a hex triple) and are not modelled: \<open>getrgb\<close> is the
  library's parser on descriptors that begin with \<^verbatim>\<open>#\<close>.
\<close>

definition hexdigit :: "char \<Rightarrow> nat option" where
  "hexdigit c =
     (let n = (of_char c :: nat) in
      if 48 \<le> n \<and> n \<le> 57 then Some (n - 48)
      else if 97 \<le> n \<and> n \<le> 102 then Some (n - 87)
      else if 65 \<le> n \<and> n \<le> 70 then Some (n - 55)
      else None)"

definition hexbyte :: "nat \<Rightarrow> nat \<Rightarrow> u8" where
  "hexbyte hi lo = of_nat (16 * hi + lo)"

definition chomp :: "string \<Rightarrow> string" where
  "chomp s = (if s \<noteq> [] \<and> last s = CHR 0x0A then butlast s else s)"

definition getrgb :: "string \<Rightarrow> error + rgba" where
  "getrgb color =
     (let t = chomp color in
      if t \<noteq> [] \<and> hd t = CHR ''#'' then
        (case those (map hexdigit (tl t)) of
           None \<Rightarrow> Inl ValueError
         | Some ds \<Rightarrow>
             if length ds = 3 then
               Inr (hexbyte (ds ! 0) (ds ! 0), hexbyte (ds ! 1) (ds ! 1),
                    hexbyte (ds ! 2) (ds ! 2), 255)
             else if length ds = 4 then
               Inr (hexbyte (ds ! 0) (ds ! 0), hexbyte (ds ! 1) (ds ! 1),
                    hexbyte (ds ! 2) (ds ! 2), hexbyte (ds ! 3) (ds ! 3))
             else if length ds = 6 then
               Inr (hexbyte (ds ! 0) (ds ! 1), hexbyte (ds ! 2) (ds ! 3),
                    hexbyte (ds ! 4) (ds ! 5), 255)
             else if length ds = 8 then
               Inr (hexbyte (ds ! 0) (ds ! 1), hexbyte (ds ! 2) (ds ! 3),
                    hexbyte (ds ! 4) (ds ! 5), hexbyte (ds ! 6) (ds ! 7))
             else Inl ValueError)
      else Inl ValueError)"

text \<open>A six-hex-digit descriptor: \<^verbatim>\<open>#\<close> and six hexadecimal digits.\<close>

definition is_hex6 :: "string \<Rightarrow> bool" where
  "is_hex6 s \<longleftrightarrow>
     length s = 7 \<and> hd s = CHR ''#'' \<and> list_all (\<lambda>c. hexdigit c \<noteq> None) (tl s)"

section \<open>Overlay blend\<close>

text \<open>
  \<^verbatim>\<open>Image.new("RGBA", size, color)\<close> fills a buffer with the colour (a descriptor
  string is parsed first, by the caller here). \<^verbatim>\<open>ImageChops.multiply\<close> and
  \<^verbatim>\<open>ImageChops.screen\<close> work on every byte of the two buffers, the alpha bytes
  included: \<open>a * b / 255\<close> and \<open>255 - (255 - a) * (255 - b) / 255\<close> in integer
  arithmetic, clipped to a byte, over the common part of the two sizes.
\<close>

definition Image_new :: "nat \<times> nat \<Rightarrow> rgba \<Rightarrow> image" where
  "Image_new sz c = \<lparr>isize = sz, pix = (\<lambda>x y. c)\<rparr>"

definition clip8 :: "int \<Rightarrow> u8" where
  "clip8 t = (if t \<le> 0 then 0 else if t \<ge> 255 then 255 else word_of_int t)"

definition chop_multiply :: "u8 \<Rightarrow> u8 \<Rightarrow> u8" where
  "chop_multiply a b = clip8 (uint a * uint b div 255)"

definition chop_screen :: "u8 \<Rightarrow> u8 \<Rightarrow> u8" where
  "chop_screen a b = clip8 (255 - ((255 - uint a) * (255 - uint b)) div 255)"

definition chop :: "(u8 \<Rightarrow> u8 \<Rightarrow> u8) \<Rightarrow> image \<Rightarrow> image \<Rightarrow> image" where
  "chop f im1 im2 =
     \<lparr>isize = (min (iwidth im1) (iwidth im2), min (iheight im1) (iheight im2)),
      pix = (\<lambda>x y. case (pix im1 x y, pix im2 x y) of
                     ((r1, g1, b1, a1), (r2, g2, b2, a2)) \<Rightarrow>
                       (f r1 r2, f g1 g2, f b1 b2, f a1 a2))\<rparr>"

definition overlay_blend :: "image \<Rightarrow> string \<Rightarrow> string \<Rightarrow> error + image" where
  "overlay_blend im overlay_hex blend_mode =
     (case getrgb overlay_hex of
        Inl e \<Rightarrow> Inl e
      | Inr c \<Rightarrow>
          (let solid_layer = Image_new (isize im) c in
           if blend_mode = ''screen'' then Inr (chop chop_screen im solid_layer)
           else if blend_mode = ''multiply'' then Inr (chop chop_multiply im solid_layer)
           else Inr (chop chop_screen im solid_layer)))"

text \<open>A buffer of one pixel, for concrete instances.\<close>

definition one_pixel :: "rgba \<Rightarrow> image" where
  "one_pixel p = \<lparr>isize = (1, 1), pix = (\<lambda>x y. p)\<rparr>"

section \<open>Grayscale duotone\<close>

text \<open>
  \<^verbatim>\<open>ImageOps.grayscale\<close> converts to mode L with the library's integer luma
  \<open>(19595 r + 38470 g + 7471 b + 0x8000) >> 16\<close>, ignoring alpha.
  \<^verbatim>\<open>ImageOps.colorize\<close> parses \<open>black\<close>, then \<open>white\<close>, builds one lookup table
  per channel (entry \<open>i < 255\<close> is \<open>black + i * (white - black) // 255\<close>, entry 255
  is \<open>white\<close>) and maps the gray level through it. The source then reattaches the
  alpha channel it took from the input (\<^verbatim>\<open>putalpha\<close>).
\<close>

definition grayscale :: "rgba \<Rightarrow> nat" where
  "grayscale p =
     (19595 * unat (red p) + 38470 * unat (green p) + 7471 * unat (blue p) + 32768) div 65536"

definition colorize_lut :: "u8 \<Rightarrow> u8 \<Rightarrow> nat \<Rightarrow> u8" where
  "colorize_lut black white i =
     (if i < 255 then word_of_int (uint black + int i * (uint white - uint black) div 255)
      else white)"

definition colorize :: "rgba \<Rightarrow> rgba \<Rightarrow> nat \<Rightarrow> u8 \<times> u8 \<times> u8" where
  "colorize black white l =
     (colorize_lut (red black) (red white) l,
      colorize_lut (green black) (green white) l,
      colorize_lut (blue black) (blue white) l)"

definition grayscale_colorize :: "image \<Rightarrow> string \<Rightarrow> string \<Rightarrow> error + image" where
  "grayscale_colorize im target_hex_white target_hex_black =
     (case getrgb target_hex_black of
        Inl e \<Rightarrow> Inl e
      | Inr black \<Rightarrow>
          (case getrgb target_hex_white of
             Inl e \<Rightarrow> Inl e
           | Inr white \<Rightarrow>
               Inr \<lparr>isize = isize im,
                    pix = (\<lambda>x y. case colorize black white (grayscale (pix im x y)) of
                                   (r, g, b) \<Rightarrow> (r, g, b, alpha (pix im x y)))\<rparr>))"

section \<open>Python floats\<close>

text \<open>
  A Python float is an IEEE 754 binary64 number. A finite one is a rational; each
  arithmetic operation returns the exact result rounded to the nearest binary64 number,
  ties to the even mantissa. \<open>round_double\<close> is that rounding: 53 bits of mantissa at
  the exponent \<open>ilog2\<close> of the value, which is not taken below the least normal
  exponent -1022 (gradual underflow). Overflow to infinity is outside the model: no
  value of this program comes near it. \<open>int(x)\<close> of a float truncates towards zero.
\<close>

definition pow2 :: "int \<Rightarrow> rat" where
  "pow2 e = (if 0 \<le> e then 2 ^ nat e else 1 / 2 ^ nat (- e))"

definition ilog2 :: "rat \<Rightarrow> int" where
  "ilog2 x =
     (case quotient_of x of (a, b) \<Rightarrow>
        (let k = bitlen a - bitlen b in if pow2 k \<le> x then k else k - 1))"

definition round_half_even :: "rat \<Rightarrow> int" where
  "round_half_even q =
     (let n = \<lfloor>q\<rfloor>; r = q - of_int n in
      if r < 1 / 2 then n else if 1 / 2 < r then n + 1 else if even n then n else n + 1)"

definition round_double :: "rat \<Rightarrow> rat" where
  "round_double x =
     (if x = 0 then 0
      else (let e = max (ilog2 \<bar>x\<bar>) (- 1022); u = pow2 (e - 52) in
            sgn x * of_int (round_half_even (\<bar>x\<bar> / u)) * u))"

definition fadd :: "rat \<Rightarrow> rat \<Rightarrow> rat" where
  "fadd a b = round_double (a + b)"

definition fsub :: "rat \<Rightarrow> rat \<Rightarrow> rat" where
  "fsub a b = round_double (a - b)"

definition fmul :: "rat \<Rightarrow> rat \<Rightarrow> rat" where
  "fmul a b = round_double (a * b)"

definition fdiv :: "rat \<Rightarrow> rat \<Rightarrow> error + rat" where
  "fdiv a b = (if b = 0 then Inl ZeroDivisionError else Inr (round_double (a / b)))"

definition py_int :: "rat \<Rightarrow> int" where
  "py_int x = (if 0 \<le> x then \<lfloor>x\<rfloor> else \<lceil>x\<rceil>)"

text \<open>
  \<open>x % 1.0\<close>: the C \<open>fmod\<close> is exact and has the sign of \<open>x\<close>; a negative
  remainder then gets the divisor added, which rounds.
\<close>

definition fmod1 :: "rat \<Rightarrow> rat" where
  "fmod1 x =
     (if 0 \<le> x then x - of_int \<lfloor>x\<rfloor>
      else (let m = x - of_int \<lceil>x\<rceil> in if m = 0 then 0 else fadd m 1))"

section \<open>Hue lock\<close>

text \<open>The standard library's \<^verbatim>\<open>colorsys.rgb_to_hsv\<close> and \<^verbatim>\<open>colorsys.hsv_to_rgb\<close>.\<close>

definition rgb_to_hsv :: "rat \<Rightarrow> rat \<Rightarrow> rat \<Rightarrow> error + rat \<times> rat \<times> rat" where
  "rgb_to_hsv r g b =
     (let maxc = max r (max g b); minc = min r (min g b);
          rangec = fsub maxc minc; v = maxc in
      if minc = maxc then Inr (0, 0, v)
      else
        and_then (fdiv rangec maxc) (\<lambda>s.
        and_then (fdiv (fsub maxc r) rangec) (\<lambda>rc.
        and_then (fdiv (fsub maxc g) rangec) (\<lambda>gc.
        and_then (fdiv (fsub maxc b) rangec) (\<lambda>bc.
          (let h = (if r = maxc then fsub bc gc
                    else if g = maxc then fsub (fadd 2 rc) bc
                    else fsub (fadd 4 gc) rc) in
           and_then (fdiv h 6) (\<lambda>h6. Inr (fmod1 h6, s, v))))))))"

definition hsv_to_rgb :: "rat \<Rightarrow> rat \<Rightarrow> rat \<Rightarrow> rat \<times> rat \<times> rat" where
  "hsv_to_rgb h s v =
     (if s = 0 then (v, v, v)
      else
        (let i = py_int (fmul h 6);
             f = fsub (fmul h 6) (of_int i);
             p = fmul v (fsub 1 s);
             q = fmul v (fsub 1 (fmul s f));
             t = fmul v (fsub 1 (fmul s (fsub 1 f)));
             i = i mod 6 in
         if i = 0 then (v, t, p)
         else if i = 1 then (q, v, p)
         else if i = 2 then (p, v, t)
         else if i = 3 then (p, q, v)
         else if i = 4 then (t, p, v)
         else (v, p, q)))"

text \<open>
  Python's \<open>int(s, 16)\<close> on a string of code points below 256: surrounding white
  space is dropped, then an optional sign, an optional \<^verbatim>\<open>0x\<close> prefix (which may be
  followed by one underscore), and hexadecimal digits with single underscores between
  them. Anything else raises \<open>ValueError\<close>.
\<close>

definition py_isspace :: "char \<Rightarrow> bool" where
  "py_isspace c = ((of_char c :: nat) \<in> {9, 10, 11, 12, 13, 32, 133, 160})"

definition strip :: "string \<Rightarrow> string" where
  "strip s = rev (dropWhile py_isspace (rev (dropWhile py_isspace s)))"

fun hex_digits :: "nat \<Rightarrow> string \<Rightarrow> nat option" where
  "hex_digits acc [] = Some acc"
| "hex_digits acc [c] = map_option (\<lambda>v. 16 * acc + v) (hexdigit c)"
| "hex_digits acc (c # d # cs) =
     (if c = CHR ''_'' then
        (case hexdigit d of None \<Rightarrow> None | Some v \<Rightarrow> hex_digits (16 * acc + v) cs)
      else
        (case hexdigit c of None \<Rightarrow> None | Some v \<Rightarrow> hex_digits (16 * acc + v) (d # cs)))"

definition hex_number :: "string \<Rightarrow> nat option" where
  "hex_number s =
     (case s of
        [] \<Rightarrow> None
      | c # cs \<Rightarrow> (case hexdigit c of None \<Rightarrow> None | Some v \<Rightarrow> hex_digits v cs))"

definition hex_prefixed :: "string \<Rightarrow> nat option" where
  "hex_prefixed s =
     (case s of
        c # x # rest \<Rightarrow>
          if c = CHR ''0'' \<and> (x = CHR ''x'' \<or> x = CHR ''X'') then
            (case rest of
               u # rest' \<Rightarrow> if u = CHR ''_'' then hex_number rest' else hex_number rest
             | [] \<Rightarrow> None)
          else hex_number s
      | _ \<Rightarrow> hex_number s)"

definition py_int16 :: "string \<Rightarrow> error + int" where
  "py_int16 s =
     (let t = strip s;
          (neg, u) = (case t of
                        c # cs \<Rightarrow> if c = CHR ''-'' then (True, cs)
                                  else if c = CHR ''+'' then (False, cs) else (False, t)
                      | [] \<Rightarrow> (False, t)) in
      case hex_prefixed u of
        None \<Rightarrow> Inl ValueError
      | Some n \<Rightarrow> Inr (if neg then - int n else int n))"

text \<open>The slice \<^verbatim>\<open>s[i:j]\<close> for \<open>0 \<le> i \<le> j\<close>.\<close>

definition slice :: "string \<Rightarrow> nat \<Rightarrow> nat \<Rightarrow> string" where
  "slice s i j = take (j - i) (drop i s)"

text \<open>
  Line 25 of the source: the three fields \<^verbatim>\<open>target_hex[i : i + 2]\<close>, \<open>i = 1, 3, 5\<close>,
  each read with \<open>int(_, 16)\<close> and divided by \<open>255.0\<close>.
\<close>

definition target_rgb :: "string \<Rightarrow> error + rat \<times> rat \<times> rat" where
  "target_rgb target_hex =
     and_then (py_int16 (slice target_hex 1 3)) (\<lambda>r.
     and_then (fdiv (of_int r) 255) (\<lambda>rf.
     and_then (py_int16 (slice target_hex 3 5)) (\<lambda>g.
     and_then (fdiv (of_int g) 255) (\<lambda>gf.
     and_then (py_int16 (slice target_hex 5 7)) (\<lambda>b.
     and_then (fdiv (of_int b) 255) (\<lambda>bf. Inr (rf, gf, bf)))))))"

text \<open>
  The body of the pixel loop (lines 38 to 49). The multipliers are finite floats. A
  channel written outside \<open>0..255\<close> is clipped by the library's pixel access.
\<close>

definition hue_shift_pixel :: "rat \<Rightarrow> rat \<Rightarrow> rat \<Rightarrow> rgba \<Rightarrow> error + rgba" where
  "hue_shift_pixel target_h sat_multiplier val_multiplier px =
     and_then (fdiv (of_int (uint (red px))) 255) (\<lambda>rf.
     and_then (fdiv (of_int (uint (green px))) 255) (\<lambda>gf.
     and_then (fdiv (of_int (uint (blue px))) 255) (\<lambda>bf.
     and_then (rgb_to_hsv rf gf bf) (\<lambda>(h, s, v).
       (let h = target_h;
            s = min (fmul s sat_multiplier) 1;
            v = min (fmul v val_multiplier) 1 in
        case hsv_to_rgb h s v of
          (nr, ng, nb) \<Rightarrow>
            Inr (clip8 (py_int (fmul nr 255)), clip8 (py_int (fmul ng 255)),
                 clip8 (py_int (fmul nb 255)), alpha px))))))"

text \<open>The pixels in the order of the loops: rows from the top, each from the left.\<close>

definition scan :: "image \<Rightarrow> rgba list" where
  "scan im = concat (map (\<lambda>y. map (\<lambda>x. pix im x y) [0..<iwidth im]) [0..<iheight im])"

fun first_error :: "(error + 'a) list \<Rightarrow> error option" where
  "first_error [] = None"
| "first_error (Inl e # rs) = Some e"
| "first_error (Inr x # rs) = first_error rs"

definition hue_shift_saturation :: "image \<Rightarrow> string \<Rightarrow> rat \<Rightarrow> rat \<Rightarrow> error + image" where
  "hue_shift_saturation im target_hex sat_multiplier val_multiplier =
     and_then (target_rgb target_hex) (\<lambda>(tr, tg, tb).
     and_then (rgb_to_hsv tr tg tb) (\<lambda>(target_h, ts, tv).
       (case first_error
               (map (hue_shift_pixel target_h sat_multiplier val_multiplier) (scan im)) of
          Some e \<Rightarrow> Inl e
        | None \<Rightarrow>
            Inr \<lparr>isize = isize im,
                 pix = (\<lambda>x y. case hue_shift_pixel target_h sat_multiplier val_multiplier
                                      (pix im x y) of
                                Inr p \<Rightarrow> p
                              | Inl e \<Rightarrow> pix im x y)\<rparr>)))"

section \<open>Canvas normalizer\<close>

text \<open>
  The sides of an image are far below \<open>2 ^ 53\<close>, so their conversion to float is
  exact. \<^verbatim>\<open>Image.resize\<close> returns a copy when the size does not change, rejects a
  side below 1 with \<open>ValueError\<close>, and otherwise resamples to exactly the requested
  size; the Lanczos resampling itself is the library's and stays a parameter
  (\<open>lanczos im size x y\<close> is the resampled pixel). \<^verbatim>\<open>Image.paste\<close> with a mask
  mixes every byte of the pasted pixel, alpha included, into the canvas with weight
  \<open>mask / 255\<close>, in the library's rounding integer arithmetic.
\<close>

type_synonym resampler = "image \<Rightarrow> nat \<times> nat \<Rightarrow> nat \<Rightarrow> nat \<Rightarrow> rgba"

definition new_size :: "nat \<times> nat \<Rightarrow> error + int \<times> int" where
  "new_size sz =
     (case sz of (w, h) \<Rightarrow>
        if w > h then
          and_then (fdiv 512 (of_nat w)) (\<lambda>k. Inr (512, py_int (fmul (of_nat h) k)))
        else
          and_then (fdiv 512 (of_nat h)) (\<lambda>k. Inr (py_int (fmul (of_nat w) k), 512)))"

definition resize :: "resampler \<Rightarrow> image \<Rightarrow> int \<times> int \<Rightarrow> error + image" where
  "resize lanczos im sz =
     (case sz of (nw, nh) \<Rightarrow>
        if (int (iwidth im), int (iheight im)) = (nw, nh) then Inr im
        else if nw < 1 \<or> nh < 1 then Inl ValueError
        else Inr \<lparr>isize = (nat nw, nat nh), pix = lanczos im (nat nw, nat nh)\<rparr>)"

definition div255 :: "nat \<Rightarrow> nat" where
  "div255 a = (let tmp = a + 128 in (tmp div 256 + tmp) div 256)"

definition blend :: "u8 \<Rightarrow> u8 \<Rightarrow> u8 \<Rightarrow> u8" where
  "blend msk in1 in2 = of_nat (div255 (unat in1 * (255 - unat msk) + unat in2 * unat msk))"

definition paste :: "image \<Rightarrow> image \<Rightarrow> int \<times> int \<Rightarrow> image \<Rightarrow> image" where
  "paste canvas im box msk =
     (case box of (x0, y0) \<Rightarrow>
        \<lparr>isize = isize canvas,
         pix = (\<lambda>x y.
           (let i = int x - x0; j = int y - y0 in
            if 0 \<le> i \<and> i < int (iwidth im) \<and> 0 \<le> j \<and> j < int (iheight im) then
              (case (pix canvas x y, pix im (nat i) (nat j)) of
                 ((r1, g1, b1, a1), (r2, g2, b2, a2)) \<Rightarrow>
                   (let m = alpha (pix msk (nat i) (nat j)) in
                    (blend m r1 r2, blend m g1 g2, blend m b1 b2, blend m a1 a2)))
            else pix canvas x y))\<rparr>)"

definition resize_and_center_512 :: "resampler \<Rightarrow> image \<Rightarrow> error + image" where
  "resize_and_center_512 lanczos im =
     and_then (new_size (isize im)) (\<lambda>(new_w, new_h).
     and_then (resize lanczos im (new_w, new_h)) (\<lambda>resized.
       (let canvas = Image_new (512, 512) (0, 0, 0, 0);
            x = (512 - new_w) div 2;
            y = (512 - new_h) div 2 in
        Inr (paste canvas resized (x, y) resized))))"

section \<open>Paths, strings and property lists\<close>

text \<open>
  Strings are sequences of code points below 256. \<open>lower\<close> is \<^verbatim>\<open>str.lower\<close> on
  them; \<open>path_join\<close>, \<open>splitext\<close> and \<open>basename\<close> are the POSIX
  \<^verbatim>\<open>os.path\<close> functions of those names.
\<close>

definition lower_char :: "char \<Rightarrow> char" where
  "lower_char c =
     (let n = (of_char c :: nat) in
      if (65 \<le> n \<and> n \<le> 90) \<or> (192 \<le> n \<and> n \<le> 222 \<and> n \<noteq> 215) then char_of (n + 32)
      else c)"

definition lower :: "string \<Rightarrow> string" where
  "lower s = map lower_char s"

definition endswith :: "string \<Rightarrow> string \<Rightarrow> bool" where
  "endswith s suf \<longleftrightarrow> length suf \<le> length s \<and> drop (length s - length suf) s = suf"

definition startswith :: "string \<Rightarrow> string \<Rightarrow> bool" where
  "startswith s pre \<longleftrightarrow> take (length pre) s = pre"

definition path_join2 :: "string \<Rightarrow> string \<Rightarrow> string" where
  "path_join2 path b =
     (if startswith b ''/'' then b
      else if path = [] \<or> endswith path ''/'' then path @ b
      else path @ ''/'' @ b)"

definition path_join :: "string \<Rightarrow> string list \<Rightarrow> string" where
  "path_join a ps = foldl path_join2 a ps"

definition rfind :: "char \<Rightarrow> string \<Rightarrow> int" where
  "rfind c s =
     (if c \<in> set s then int (length s) - 1 - int (length (takeWhile (\<lambda>d. d \<noteq> c) (rev s)))
      else - 1)"

definition splitext :: "string \<Rightarrow> string \<times> string" where
  "splitext p =
     (let sepIndex = rfind CHR ''/'' p; dotIndex = rfind CHR ''.'' p in
      if dotIndex > sepIndex \<and>
         list_ex (\<lambda>c. c \<noteq> CHR ''.'') (slice p (nat (sepIndex + 1)) (nat dotIndex))
      then (take (nat dotIndex) p, drop (nat dotIndex) p)
      else (p, []))"

definition basename :: "string \<Rightarrow> string" where
  "basename p = drop (nat (rfind CHR ''/'' p + 1)) p"

text \<open>
  What \<^verbatim>\<open>plistlib.load\<close> returns: strings, integers, reals, booleans, data,
  dates, arrays and dictionaries (a dictionary as its list of entries, looked up from
  the front). \<open>truthy\<close> is Python's truth value of such an object.
\<close>

datatype plist =
    PString string
  | PInteger int
  | PReal rat
  | PBool bool
  | PData string
  | PDate int
  | PArray "plist list"
  | PDict "(string \<times> plist) list"

fun truthy :: "plist \<Rightarrow> bool" where
  "truthy (PString s) = (s \<noteq> [])"
| "truthy (PInteger n) = (n \<noteq> 0)"
| "truthy (PReal x) = (x \<noteq> 0)"
| "truthy (PBool b) = b"
| "truthy (PData d) = (d \<noteq> [])"
| "truthy (PDate t) = True"
| "truthy (PArray xs) = (xs \<noteq> [])"
| "truthy (PDict d) = (d \<noteq> [])"

text \<open>\<^verbatim>\<open>plist_data.get(key)\<close>: only a dictionary has the method.\<close>

fun plist_get :: "plist \<Rightarrow> string \<Rightarrow> error + plist option" where
  "plist_get (PDict d) key = Inr (map_of d key)"
| "plist_get p key = Inl AttributeError"

section \<open>The world outside the program\<close>

text \<open>
  The file system and the imaging library's file handling, as the program sees them.
  \<open>load_plist p\<close> is the outcome of opening \<open>p\<close> and parsing it as a property
  list; \<open>Image_open p\<close> the outcome of \<^verbatim>\<open>Image.open(p)\<close>, the decoded buffer or
  the exception; \<open>save_icns p im\<close> the exception of writing the icon container, if
  any. What a run prints, shows and writes is collected as a list of events; the
  answers of the world do not change during a run.
\<close>

record world =
  isfile :: "string \<Rightarrow> bool"
  load_plist :: "string \<Rightarrow> error + plist"
  Image_open :: "string \<Rightarrow> error + image"
  save_icns :: "string \<Rightarrow> image \<Rightarrow> error option"
  lanczos :: resampler

datatype event =
    Print string
  | PrintExc string error
  | ShowError string
  | Write string image

section \<open>Bundle icon locator\<close>

definition info_plist_path :: "string \<Rightarrow> string" where
  "info_plist_path app_path = path_join app_path [''Contents'', ''Info.plist'']"

definition icns_name :: "string \<Rightarrow> string" where
  "icns_name icon_file = (if endswith (lower icon_file) ''.icns'' then icon_file
                          else icon_file @ ''.icns'')"

definition possible_path :: "string \<Rightarrow> string \<Rightarrow> string" where
  "possible_path app_path icon_file =
     path_join app_path [''Contents'', ''Resources'', icns_name icon_file]"

definition pull_app_icon :: "world \<Rightarrow> string \<Rightarrow> error + string option" where
  "pull_app_icon w app_path =
     (if \<not> isfile w (info_plist_path app_path) then Inr None
      else
        and_then (load_plist w (info_plist_path app_path)) (\<lambda>plist_data.
        and_then (plist_get plist_data ''CFBundleIconFile'') (\<lambda>icon_file.
          (case icon_file of
             None \<Rightarrow> Inr None
           | Some v \<Rightarrow>
               if \<not> truthy v then Inr None
               else
                 (case v of
                    PString name \<Rightarrow>
                      if isfile w (possible_path app_path name)
                      then Inr (Some (possible_path app_path name))
                      else Inr None
                  | PData d \<Rightarrow> Inl TypeError
                  | _ \<Rightarrow> Inl AttributeError)))))"

section \<open>Batch runs\<close>

text \<open>
  A run returns its events in order and the exception that ended it, if one reached
  the top uncaught.
\<close>

type_synonym run = "event list \<times> error option"

definition emit :: "event list \<Rightarrow> run \<Rightarrow> run" where
  "emit evs r = (evs @ fst r, snd r)"

text \<open>The loop of \<^verbatim>\<open>recolor_app_icons\<close> (lines 175 to 218).\<close>

fun recolor_app_icons ::
  "world \<Rightarrow> string list \<Rightarrow> (image \<Rightarrow> error + image) \<Rightarrow> string \<Rightarrow> run" where
  "recolor_app_icons w [] recolor_function output_dir = ([], None)"
| "recolor_app_icons w (app_path # rest) recolor_function output_dir =
     (if \<not> endswith (lower app_path) ''.app'' then
        emit [Print (''Skipping non-app: '' @ app_path)]
          (recolor_app_icons w rest recolor_function output_dir)
      else
        (case pull_app_icon w app_path of
           Inl e \<Rightarrow> ([], Some e)
         | Inr None \<Rightarrow>
             emit [Print (''No icon found for: '' @ app_path)]
               (recolor_app_icons w rest recolor_function output_dir)
         | Inr (Some icon_path) \<Rightarrow>
             (case Image_open w icon_path of
                Inl e \<Rightarrow>
                  emit [PrintExc (''Could not open icon for '' @ app_path @ '': '') e]
                    (recolor_app_icons w rest recolor_function output_dir)
              | Inr img \<Rightarrow>
                  (case recolor_function img of
                     Inl e \<Rightarrow> ([], Some e)
                   | Inr recolored \<Rightarrow>
                       (case resize_and_center_512 (lanczos w) recolored of
                          Inl e \<Rightarrow> ([], Some e)
                        | Inr final_512 \<Rightarrow>
                            (let base_app_name = fst (splitext (basename app_path));
                                 out_icns_name = base_app_name @ ''.icns'';
                                 out_path = path_join output_dir [out_icns_name] in
                             (case save_icns w out_path final_512 of
                                None \<Rightarrow>
                                  emit [Write out_path final_512,
                                        Print (''[OK] Recolored icon for '' @ base_app_name
                                               @ '' -> '' @ out_path)]
                                    (recolor_app_icons w rest recolor_function output_dir)
                              | Some e \<Rightarrow>
                                  emit [PrintExc (''[Error] Could not save .icns for ''
                                                  @ base_app_name @ '': '') e]
                                    (recolor_app_icons w rest recolor_function output_dir))))))))"

text \<open>
  The answers of the dialogs of \<^verbatim>\<open>main\<close>, in the order asked. A cancelled text
  dialog answers \<open>None\<close>; a cancelled file or directory dialog answers the empty
  selection. \<open>sat_mult\<close> and \<open>val_mult\<close> are the floats that lines 294 to 301 (387 to
  394) make of the two multiplier answers: 1.0 for a blank or non-numeric answer.
\<close>

record answers =
  approach_answer :: "string option"
  sub_answer :: "string option"
  hex_answer :: "string option"
  paths_answer :: "string list"
  dir_answer :: string
  sat_mult :: rat
  val_mult :: rat
  darker_answer :: "string option"
  mode_answer :: "string option"

text \<open>Python's \<open>not s\<close> for an optional string: \<open>None\<close> and the empty string.\<close>

definition blank :: "string option \<Rightarrow> bool" where
  "blank s \<longleftrightarrow> (case s of None \<Rightarrow> True | Some t \<Rightarrow> t = [])"

definition hexchar :: "nat \<Rightarrow> char" where
  "hexchar d = (if d < 10 then char_of (48 + d) else char_of (55 + d))"

fun to_hex :: "nat \<Rightarrow> string" where
  "to_hex n = (if n < 16 then [hexchar n] else to_hex (n div 16) @ [hexchar (n mod 16)])"

text \<open>The format \<^verbatim>\<open>{n:02X}\<close> of an integer.\<close>

definition format_02X :: "int \<Rightarrow> string" where
  "format_02X n =
     (let ds = to_hex (nat \<bar>n\<bar>);
          body = (if length ds < 2 \<and> 0 \<le> n then CHR ''0'' # ds else ds) in
      if n < 0 then CHR ''-'' # body else body)"

text \<open>
  Lines 403 to 410 (316 to 322): the dark colour derived from the primary one, each
  channel scaled by the float \<open>0.8\<close>.
\<close>

definition darken :: "int \<Rightarrow> int" where
  "darken c = py_int (max (fmul (of_int c) (round_double (4 / 5))) 0)"

definition derived_darker_hex :: "string \<Rightarrow> error + string" where
  "derived_darker_hex target =
     and_then (py_int16 (slice target 1 3)) (\<lambda>r.
     and_then (py_int16 (slice target 3 5)) (\<lambda>g.
     and_then (py_int16 (slice target 5 7)) (\<lambda>b.
       Inr (''#'' @ format_02X (darken r) @ format_02X (darken g) @ format_02X (darken b)))))"

definition chosen_blend_mode :: "string option \<Rightarrow> string" where
  "chosen_blend_mode m =
     (if m = Some ''screen'' \<or> m = Some ''multiply'' then the m else ''screen'')"

text \<open>The recolouring of one image in the loop of the single-file path (lines 432 to 437).\<close>

definition recolor_standard ::
  "string \<Rightarrow> string \<Rightarrow> rat \<Rightarrow> rat \<Rightarrow> string \<Rightarrow> string \<Rightarrow> image \<Rightarrow> error + image" where
  "recolor_standard approach target sat val darker mode img =
     (if approach = ''1'' then hue_shift_saturation img target sat val
      else if approach = ''2'' then grayscale_colorize img target darker
      else overlay_blend img target mode)"

text \<open>The loop of the single-file path (lines 422 to 448).\<close>

fun process_images :: "world \<Rightarrow> (image \<Rightarrow> error + image) \<Rightarrow> string list \<Rightarrow> run" where
  "process_images w recolor [] = ([], None)"
| "process_images w recolor (path # rest) =
     (let out_path = fst (splitext path) @ ''.icns'' in
      emit [Print (''Processing '' @ path @ '' -> '' @ out_path)]
        (case Image_open w path of
           Inl e \<Rightarrow> ([], Some e)
         | Inr img \<Rightarrow>
             (case recolor img of
                Inl e \<Rightarrow> ([], Some e)
              | Inr recolored \<Rightarrow>
                  (case resize_and_center_512 (lanczos w) recolored of
                     Inl e \<Rightarrow> ([], Some e)
                   | Inr final_512 \<Rightarrow>
                       (case save_icns w out_path final_512 of
                          Some e \<Rightarrow> ([], Some e)
                        | None \<Rightarrow>
                            emit [Write out_path final_512, Print (''Saved: '' @ out_path)]
                              (process_images w recolor rest))))))"

text \<open>After the loop, when no exception ended it, the closing line is printed.\<close>

definition then_print :: "run \<Rightarrow> string \<Rightarrow> run" where
  "then_print r line = (case snd r of None \<Rightarrow> (fst r @ [Print line], None) | Some e \<Rightarrow> r)"

text \<open>The single-file path of \<^verbatim>\<open>main\<close> (lines 349 to 450).\<close>

definition main_standard :: "world \<Rightarrow> answers \<Rightarrow> run" where
  "main_standard w a =
     (let approach = the (approach_answer a) in
      if approach \<noteq> ''1'' \<and> approach \<noteq> ''2'' \<and> approach \<noteq> ''3'' then
        ([ShowError ''Invalid approach selection.''], None)
      else if blank (hex_answer a) then ([Print ''No hex code entered. Exiting.''], None)
      else if paths_answer a = [] then ([Print ''No image selected. Exiting.''], None)
      else
        (let target = the (hex_answer a) in
         case (if approach = ''2'' \<and> blank (darker_answer a) then derived_darker_hex target
               else Inr (case darker_answer a of None \<Rightarrow> [] | Some d \<Rightarrow> d)) of
           Inl e \<Rightarrow> ([], Some e)
         | Inr darker \<Rightarrow>
             then_print
               (process_images w
                  (recolor_standard approach target (sat_mult a) (val_mult a) darker
                     (chosen_blend_mode (mode_answer a)))
                  (paths_answer a))
               ''Done with standard recoloring approach.''))"

text \<open>The bundle path of \<^verbatim>\<open>main\<close> (lines 243 to 343).\<close>

definition main_app :: "world \<Rightarrow> answers \<Rightarrow> run" where
  "main_app w a =
     (if sub_answer a \<noteq> Some ''1'' \<and> sub_answer a \<noteq> Some ''2'' \<and> sub_answer a \<noteq> Some ''3'' then
        ([ShowError ''Invalid sub-choice for recolor. Exiting.''], None)
      else if blank (hex_answer a) then ([Print ''No hex code entered. Exiting.''], None)
      else if paths_answer a = [] then ([Print ''No .app selected. Exiting.''], None)
      else if dir_answer a = [] then ([Print ''No output directory selected. Exiting.''], None)
      else
        (let target = the (hex_answer a); sub = the (sub_answer a) in
         case (if sub = ''2'' \<and> blank (darker_answer a) then derived_darker_hex target
               else Inr (case darker_answer a of None \<Rightarrow> [] | Some d \<Rightarrow> d)) of
           Inl e \<Rightarrow> ([], Some e)
         | Inr darker \<Rightarrow>
             then_print
               (recolor_app_icons w (paths_answer a)
                  (recolor_standard sub target (sat_mult a) (val_mult a) darker
                     (chosen_blend_mode (mode_answer a)))
                  (dir_answer a))
               ''Done with .app recoloring feature!''))"

definition main :: "world \<Rightarrow> answers \<Rightarrow> run" where
  "main w a =
     (if blank (approach_answer a) then ([Print ''No approach chosen. Exiting.''], None)
      else if lower (the (approach_answer a)) = ''app'' then main_app w a
      else main_standard w a)"

section \<open>Outcomes and instances used in the statements\<close>




definition returns_same_buffer :: "error + image \<Rightarrow> image \<Rightarrow> bool" where
  "returns_same_buffer r im \<longleftrightarrow> (case r of Inl e \<Rightarrow> False | Inr out \<Rightarrow> same_buffer out im)"

text \<open>
  Concrete worlds and answers: a bundle \<^verbatim>\<open>/Applications/Demo.app\<close> whose
  descriptor parses to \<open>p\<close> and whose only resource is \<^verbatim>\<open>Demo.icns\<close>; the same
  bundle with a descriptor that does not parse; a directory in which only
  \<^verbatim>\<open>good.png\<close> opens; the answers of a single-file run.
\<close>

definition flat_resampler :: resampler where
  "flat_resampler im sz x y = (0, 0, 0, 0)"



definition demo_world :: world where
  "demo_world =
     \<lparr>isfile = (\<lambda>f. False),
      load_plist = (\<lambda>f. Inl OSError),
      Image_open = (\<lambda>f. if f = ''good.png'' then Inr (one_pixel (255, 0, 0, 255))
                          else Inl OSError),
      save_icns = (\<lambda>f im. None),
      lanczos = flat_resampler\<rparr>"

definition demo_answers :: "string \<Rightarrow> string \<Rightarrow> string list \<Rightarrow> answers" where
  "demo_answers approach hex paths =
     \<lparr>approach_answer = Some approach, sub_answer = None, hex_answer = Some hex,
      paths_answer = paths, dir_answer = [], sat_mult = 1, val_mult = 1,
      darker_answer = None, mode_answer = None\<rparr>"

section \<open>Notions used in the statements about floats and hue lock\<close>

text \<open>
  The exponent and the unit in the last place that \<open>round_double\<close> uses for a value;
  the shorter side that \<open>new_size\<close> computes from the shorter side \<open>a\<close> and the
  longer side \<open>b\<close> of the source.
\<close>

definition fexp :: "rat \<Rightarrow> int" where
  "fexp x = max (ilog2 \<bar>x\<bar>) (- 1022)"

definition ulp :: "rat \<Rightarrow> rat" where
  "ulp x = pow2 (fexp x - 52)"

definition scaled_side :: "nat \<Rightarrow> nat \<Rightarrow> int" where
  "scaled_side a b = py_int (fmul (of_nat a) (round_double (512 / of_nat b)))"









section \<open>Bytes and colour parsing: basic facts\<close>

lemma uint_le_255: "uint (a::u8) \<le> 255"
  using uint_bounded[of a] by simp

lemma clip8_uint: "clip8 (uint (a::u8)) = a"
  using uint_le_255[of a] by (auto simp: clip8_def word_uint_eq_iff)

lemma chop_multiply_255: "chop_multiply a 255 = a"
  by (simp add: chop_multiply_def clip8_uint)

lemma chop_screen_0: "chop_screen a 0 = a"
  using uint_le_255[of a] by (simp add: chop_screen_def clip8_uint)

lemma chop_screen_255: "chop_screen a 255 = 255"
  by (simp add: chop_screen_def clip8_def)

lemma alpha_tuple: "alpha (r, g, b, a) = a"
  by (simp add: alpha_def)

lemma getrgb_white: "getrgb ''#FFFFFF'' = Inr (255, 255, 255, 255)"
  by (simp add: getrgb_def chomp_def hexdigit_def hexbyte_def)

lemma getrgb_black: "getrgb ''#000000'' = Inr (0, 0, 0, 255)"
  by (simp add: getrgb_def chomp_def hexdigit_def hexbyte_def)

lemma those_map_Some:
  "list_all (\<lambda>c. f c \<noteq> None) xs \<Longrightarrow> \<exists>ys. those (map f xs) = Some ys \<and> length ys = length xs"
  by (induction xs) auto

lemma getrgb_hex6:
  assumes "is_hex6 s"
  shows "\<exists>r g b. getrgb s = Inr (r, g, b, 255)"
proof -
  from assms have len: "length s = 7" and hd: "hd s = CHR ''#''"
    and all: "list_all (\<lambda>c. hexdigit c \<noteq> None) (tl s)"
    by (simp_all add: is_hex6_def)
  from len have ne: "s \<noteq> []" by auto
  from len have tne: "tl s \<noteq> []" by (cases s) auto
  have "last s = last (tl s)" using tne by (simp add: last_tl)
  then have "last s \<in> set (tl s)" using tne by simp
  then have "hexdigit (last s) \<noteq> None" using all by (simp add: list_all_iff)
  moreover have "hexdigit (CHR 0x0A) = None" by (simp add: hexdigit_def)
  ultimately have "last s \<noteq> CHR 0x0A" by metis
  then have ch: "chomp s = s" by (simp add: chomp_def)
  from those_map_Some[OF all] len obtain ds
    where ds: "those (map hexdigit (tl s)) = Some ds" "length ds = 6" by auto
  show ?thesis using ne hd ds by (simp add: getrgb_def ch)
qed

section \<open>Overlay blend: alpha and identities\<close>

lemma overlay_blend_parsed:
  assumes "getrgb s = Inr c"
  shows "overlay_blend im s m =
     Inr (chop (if m = ''multiply'' then chop_multiply else chop_screen) im
            \<lparr>isize = isize im, pix = (\<lambda>x y. c)\<rparr>)"
  using assms by (simp add: overlay_blend_def Image_new_def Let_def)

lemma alpha_chop:
  "alpha (pix (chop f im1 im2) x y) = f (alpha (pix im1 x y)) (alpha (pix im2 x y))"
  by (simp add: chop_def alpha_def split: prod.splits)

lemma isize_chop_same: "isize im2 = isize im1 \<Longrightarrow> isize (chop f im1 im2) = isize im1"
  by (simp add: chop_def iwidth_def iheight_def)

lemma chop_multiply_white:
  "chop chop_multiply im \<lparr>isize = isize im, pix = (\<lambda>x y. (255, 255, 255, 255))\<rparr> = im"
  by (simp add: chop_def iwidth_def iheight_def chop_multiply_255 split: prod.splits)

lemma pix_chop_screen_black:
  "pix (chop chop_screen im \<lparr>isize = isize im, pix = (\<lambda>x y. (0, 0, 0, 255))\<rparr>) x y =
     (red (pix im x y), green (pix im x y), blue (pix im x y), 255)"
  by (simp add: chop_def chop_screen_0 chop_screen_255 red_def green_def blue_def
      split: prod.splits)

text \<open>
  C10. With a six-hex-digit overlay colour, mode \<^verbatim>\<open>multiply\<close> gives every output
  pixel the alpha of the source pixel, and mode \<^verbatim>\<open>screen\<close>, like every other mode
  string (the fallback branch), gives every output pixel alpha 255.
\<close>

theorem overlay_blend_alpha:
  assumes "is_hex6 overlay_hex"
  shows "\<exists>out. overlay_blend im overlay_hex blend_mode = Inr out \<and> isize out = isize im \<and>
           (\<forall>x y. alpha (pix out x y) =
                    (if blend_mode = ''multiply'' then alpha (pix im x y) else 255))"
proof -
  from getrgb_hex6[OF assms] obtain r g b where "getrgb overlay_hex = Inr (r, g, b, 255)"
    by blast
  from overlay_blend_parsed[OF this, of im blend_mode] show ?thesis
    by (auto simp: alpha_chop isize_chop_same alpha_tuple chop_multiply_255 chop_screen_255)
qed

theorem overlay_blend_alpha_witness:
  "is_hex6 ''#FFB6C1'' \<and>
   (\<exists>out. overlay_blend (one_pixel (10, 20, 30, 128)) ''#FFB6C1'' ''screen'' = Inr out \<and>
      alpha (pix out 0 0) = 255)"
proof -
  have h: "is_hex6 ''#FFB6C1''" by (simp add: is_hex6_def hexdigit_def)
  show ?thesis
    using h overlay_blend_alpha[OF h, of "one_pixel (10, 20, 30, 128)" "''screen''"]
    by auto
qed

text \<open>
  C8, as the code has it. Mode \<^verbatim>\<open>multiply\<close> with the overlay \<^verbatim>\<open>#FFFFFF\<close> returns
  the source buffer unchanged. Mode \<^verbatim>\<open>screen\<close> with the overlay \<^verbatim>\<open>#000000\<close>
  returns a buffer of the same size whose pixels keep the red, green and blue of the
  source and have alpha 255: it is the source exactly where the source is opaque.
\<close>

theorem overlay_blend_identities:
  "overlay_blend im ''#FFFFFF'' ''multiply'' = Inr im \<and>
   (\<exists>out. overlay_blend im ''#000000'' ''screen'' = Inr out \<and> isize out = isize im \<and>
      (\<forall>x y. pix out x y = (red (pix im x y), green (pix im x y), blue (pix im x y), 255)))"
proof -
  have "overlay_blend im ''#FFFFFF'' ''multiply'' = Inr im"
    by (simp add: overlay_blend_parsed[OF getrgb_white] chop_multiply_white)
  moreover have "overlay_blend im ''#000000'' ''screen'' =
      Inr (chop chop_screen im \<lparr>isize = isize im, pix = (\<lambda>x y. (0, 0, 0, 255))\<rparr>)"
    by (simp add: overlay_blend_parsed[OF getrgb_black])
  ultimately show ?thesis
    by (simp add: pix_chop_screen_black isize_chop_same)
qed

text \<open>
  C8 as stated fails on a source that is not opaque: the screen blend of the one-pixel
  buffer \<open>(10, 20, 30, 128)\<close> with \<^verbatim>\<open>#000000\<close> is not that buffer (its alpha is 255).
\<close>

theorem overlay_blend_screen_black_counterexample:
  "overlay_blend (one_pixel (10, 20, 30, 128)) ''#000000'' ''screen''
     \<noteq> Inr (one_pixel (10, 20, 30, 128))"
proof
  assume "overlay_blend (one_pixel (10, 20, 30, 128)) ''#000000'' ''screen''
     = Inr (one_pixel (10, 20, 30, 128))"
  then have "chop chop_screen (one_pixel (10, 20, 30, 128))
       \<lparr>isize = isize (one_pixel (10, 20, 30, 128)), pix = (\<lambda>x y. (0, 0, 0, 255))\<rparr>
     = one_pixel (10, 20, 30, 128)"
    by (simp add: overlay_blend_parsed[OF getrgb_black])
  then have "alpha (pix (chop chop_screen (one_pixel (10, 20, 30, 128))
       \<lparr>isize = isize (one_pixel (10, 20, 30, 128)), pix = (\<lambda>x y. (0, 0, 0, 255))\<rparr>) 0 0)
     = alpha (pix (one_pixel (10, 20, 30, 128)) 0 0)"
    by simp
  then show False
    by (simp add: alpha_chop alpha_tuple chop_screen_255 one_pixel_def)
qed

section \<open>Grayscale duotone with one colour\<close>

lemma colorize_lut_same: "colorize_lut c c i = c"
  by (simp add: colorize_lut_def)

text \<open>
  C9. When the light and the dark descriptor are the same string and it parses to the
  colour \<open>c\<close>, the duotone transform returns a buffer of the source's size in which
  every pixel has the red, green and blue of \<open>c\<close>, whatever the source pixels are; the
  alpha of each pixel is the source's.
\<close>

theorem grayscale_colorize_uniform:
  assumes "getrgb h = Inr c"
  shows "\<exists>out. grayscale_colorize im h h = Inr out \<and> isize out = isize im \<and>
           (\<forall>x y. red (pix out x y) = red c \<and> green (pix out x y) = green c \<and>
                   blue (pix out x y) = blue c \<and> alpha (pix out x y) = alpha (pix im x y))"
  using assms
  by (simp add: grayscale_colorize_def colorize_def colorize_lut_same
      red_def green_def blue_def alpha_def)

theorem grayscale_colorize_uniform_witness:
  "getrgb ''#FFB6C1'' = Inr (255, 182, 193, 255) \<and>
   (\<exists>out. grayscale_colorize (one_pixel (10, 20, 30, 128)) ''#FFB6C1'' ''#FFB6C1'' = Inr out \<and>
      pix out 0 0 = (255, 182, 193, 128))"
proof -
  have h: "getrgb ''#FFB6C1'' = Inr (255, 182, 193, 255)"
    by (simp add: getrgb_def chomp_def hexdigit_def hexbyte_def)
  from grayscale_colorize_uniform[OF h, of "one_pixel (10, 20, 30, 128)"]
  obtain out where o: "grayscale_colorize (one_pixel (10, 20, 30, 128)) ''#FFB6C1'' ''#FFB6C1'' = Inr out"
    and p: "red (pix out 0 0) = red (255, 182, 193, 255) \<and>
            green (pix out 0 0) = green (255, 182, 193, 255) \<and>
            blue (pix out 0 0) = blue (255, 182, 193, 255) \<and>
            alpha (pix out 0 0) = alpha (pix (one_pixel (10, 20, 30, 128)) 0 0)"
    by blast
  from p have "pix out 0 0 = (255, 182, 193, 128)"
    by (cases "pix out 0 0") (simp add: red_def green_def blue_def alpha_def one_pixel_def)
  with h o show ?thesis by simp
qed

section \<open>Bundle icon locator\<close>














section \<open>Batch runs\<close>

lemma splitext_bad: "splitext ''bad.png'' = (''bad'', ''.png'')"
  by (simp add: splitext_def rfind_def slice_def)


lemma process_images_open_failure:
  "Image_open w path = Inl e \<Longrightarrow>
   process_images w recolor (path # rest) =
     ([Print (''Processing '' @ path @ '' -> '' @ fst (splitext path) @ ''.icns'')], Some e)"
  by (simp add: emit_def)


text \<open>In the bundle loop an icon that cannot be opened is reported and the loop goes on.\<close>

lemma recolor_app_icons_open_failure:
  assumes "endswith (lower app_path) ''.app''"
    and "pull_app_icon w app_path = Inr (Some icon_path)"
    and "Image_open w icon_path = Inl e"
  shows "recolor_app_icons w (app_path # rest) recolor_function out_dir =
     emit [PrintExc (''Could not open icon for '' @ app_path @ '': '') e]
       (recolor_app_icons w rest recolor_function out_dir)"
  using assms by simp

text \<open>
  C7 at a failing input. A single-file overlay run over \<^verbatim>\<open>bad.png\<close>, which cannot
  be opened, and \<^verbatim>\<open>good.png\<close>, which can: the run announces the first file and
  ends there with the uncaught exception of \<^verbatim>\<open>Image.open\<close>; the second file is
  never reached.
\<close>

theorem open_failure_aborts_single_file_run:
  "main demo_world (demo_answers ''3'' ''#FFB6C1'' [''bad.png'', ''good.png'']) =
     ([Print ''Processing bad.png -> bad.icns''], Some OSError)"
proof -
  have o: "Image_open demo_world ''bad.png'' = Inl OSError" by (simp add: demo_world_def)
  have p: "process_images demo_world recolor [''bad.png'', ''good.png''] =
      ([Print ''Processing bad.png -> bad.icns''], Some OSError)" for recolor
    using process_images_open_failure[OF o, of recolor "[''good.png'']"]
    by (simp add: splitext_bad)
  show ?thesis
    by (simp add: main_def main_standard_def demo_answers_def blank_def lower_def lower_char_def
        then_print_def p Let_def del: process_images.simps)
qed

section \<open>Unparseable colour descriptors\<close>







section \<open>Rounding to binary64\<close>

lemma pow2_powi: "pow2 e = 2 powi e"
  by (simp add: pow2_def power_int_def power_inverse field_simps)

lemma pow2_pos: "0 < pow2 e"
  by (simp add: pow2_powi)

lemma pow2_add: "pow2 (a + b) = pow2 a * pow2 b"
  by (simp add: pow2_powi power_int_add)

lemma pow2_mono: "a \<le> b \<Longrightarrow> pow2 a \<le> pow2 b"
  by (simp add: pow2_powi power_int_increasing)

lemma pow2_strict_mono: "a < b \<Longrightarrow> pow2 a < pow2 b"
  by (simp add: pow2_powi power_int_strict_increasing)

lemma pow2_nat: "pow2 (int n) = 2 ^ n"
  by (simp add: pow2_def)

lemma pow2_le_iff: "pow2 a \<le> pow2 b \<longleftrightarrow> a \<le> b"
  using pow2_mono[of a b] pow2_strict_mono[of b a] by (auto simp: not_le[symmetric])

lemma pow2_less_iff: "pow2 a < pow2 b \<longleftrightarrow> a < b"
  using pow2_strict_mono[of a b] pow2_mono[of b a] by (auto simp: not_less[symmetric])

lemma ilog2_bounds:
  assumes "0 < x"
  shows "pow2 (ilog2 x) \<le> x" and "x < pow2 (ilog2 x + 1)"
proof -
  obtain a b where q: "quotient_of x = (a, b)" by (cases "quotient_of x")
  then have b: "0 < b" and x: "x = of_int a / of_int b"
    using quotient_of_denom_pos quotient_of_div by blast+
  with assms have a: "0 < a"
    by (simp add: zero_less_divide_iff)
  define la where "la = bitlen a"
  define lb where "lb = bitlen b"
  from bitlen_bounds[OF a] have a1: "2 ^ nat (la - 1) \<le> a" and a2: "a < 2 ^ nat la"
    by (simp_all add: la_def)
  from bitlen_bounds[OF b] have b1: "2 ^ nat (lb - 1) \<le> b" and b2: "b < 2 ^ nat lb"
    by (simp_all add: lb_def)
  have la1: "1 \<le> la" using a by (simp add: la_def bitlen_alt_def)
  have lb1: "1 \<le> lb" using b by (simp add: lb_def bitlen_alt_def)
  have ra1: "pow2 (la - 1) \<le> of_int a"
  proof -
    have "(of_int (2 ^ nat (la - 1)) :: rat) \<le> of_int a" using a1 by (simp only: of_int_le_iff)
    then show ?thesis using la1 by (simp add: pow2_def)
  qed
  have ra2: "of_int a < pow2 la"
  proof -
    have "(of_int a :: rat) < of_int (2 ^ nat la)" using a2 by (simp only: of_int_less_iff)
    then show ?thesis using la1 by (simp add: pow2_def)
  qed
  have rb1: "pow2 (lb - 1) \<le> of_int b"
  proof -
    have "(of_int (2 ^ nat (lb - 1)) :: rat) \<le> of_int b" using b1 by (simp only: of_int_le_iff)
    then show ?thesis using lb1 by (simp add: pow2_def)
  qed
  have rb2: "of_int b < pow2 lb"
  proof -
    have "(of_int b :: rat) < of_int (2 ^ nat lb)" using b2 by (simp only: of_int_less_iff)
    then show ?thesis using lb1 by (simp add: pow2_def)
  qed
  have rb: "(0::rat) < of_int b" using b by simp
  have up: "x < pow2 (la - lb + 1)"
  proof -
    have "of_int a < pow2 (la - lb + 1) * pow2 (lb - 1)"
      using ra2 by (simp add: pow2_add[symmetric])
    also have "\<dots> \<le> pow2 (la - lb + 1) * of_int b"
      using rb1 pow2_pos[of "la - lb + 1"] by (simp add: mult_left_mono)
    finally show ?thesis using rb by (simp add: x pos_divide_less_eq)
  qed
  have low: "pow2 (la - lb - 1) < x"
  proof -
    have "pow2 (la - lb - 1) * of_int b < pow2 (la - lb - 1) * pow2 lb"
      using rb2 pow2_pos[of "la - lb - 1"] by (simp add: mult_strict_left_mono)
    also have "\<dots> = pow2 (la - 1)" by (simp add: pow2_add[symmetric])
    also have "\<dots> \<le> of_int a" by (rule ra1)
    finally show ?thesis using rb by (simp add: x pos_less_divide_eq)
  qed
  have il: "ilog2 x = (if pow2 (la - lb) \<le> x then la - lb else la - lb - 1)"
    by (simp add: ilog2_def q la_def lb_def Let_def)
  show "pow2 (ilog2 x) \<le> x" using low by (auto simp: il)
  show "x < pow2 (ilog2 x + 1)" using up by (auto simp: il)
qed

lemma ilog2_unique:
  assumes "pow2 e \<le> x" and "x < pow2 (e + 1)"
  shows "ilog2 x = e"
proof -
  have x: "0 < x" using assms(1) pow2_pos[of e] by simp
  from ilog2_bounds[OF x] have 1: "pow2 (ilog2 x) \<le> x" and 2: "x < pow2 (ilog2 x + 1)" .
  from 1 assms(2) have "pow2 (ilog2 x) < pow2 (e + 1)" by simp
  then have "ilog2 x < e + 1" by (simp add: pow2_less_iff)
  moreover from assms(1) 2 have "pow2 e < pow2 (ilog2 x + 1)" by simp
  then have "e < ilog2 x + 1" by (simp add: pow2_less_iff)
  ultimately show ?thesis by simp
qed


lemma rhe_err: "\<bar>of_int (round_half_even q) - q\<bar> \<le> 1 / 2"
proof -
  have "of_int \<lfloor>q\<rfloor> \<le> q" "q < of_int \<lfloor>q\<rfloor> + 1" by linarith+
  then show ?thesis
    by (auto simp: round_half_even_def Let_def abs_le_iff)
qed

lemma rhe_int: "round_half_even (of_int k) = k"
  by (simp add: round_half_even_def)

lemma rhe_floor_le: "\<lfloor>q\<rfloor> \<le> round_half_even q"
  by (simp add: round_half_even_def Let_def)

lemma rhe_le_floor1: "round_half_even q \<le> \<lfloor>q\<rfloor> + 1"
  by (simp add: round_half_even_def Let_def)

lemma rhe_mono:
  assumes "q \<le> q'"
  shows "round_half_even q \<le> round_half_even q'"
proof (cases "\<lfloor>q\<rfloor> = \<lfloor>q'\<rfloor>")
  case True
  with assms have "q - of_int \<lfloor>q\<rfloor> \<le> q' - of_int \<lfloor>q'\<rfloor>" by simp
  then show ?thesis using True
    by (auto simp: round_half_even_def Let_def)
next
  case False
  with assms have "\<lfloor>q\<rfloor> < \<lfloor>q'\<rfloor>" using floor_mono[OF assms] by linarith
  then have "round_half_even q \<le> \<lfloor>q'\<rfloor>" using rhe_le_floor1[of q] by linarith
  also have "\<dots> \<le> round_half_even q'" by (rule rhe_floor_le)
  finally show ?thesis .
qed

lemma rhe_ge: "of_int k \<le> q \<Longrightarrow> k \<le> round_half_even q"
  using rhe_mono[of "of_int k" q] by (simp add: rhe_int)

lemma rhe_le: "q \<le> of_int k \<Longrightarrow> round_half_even q \<le> k"
  using rhe_mono[of q "of_int k"] by (simp add: rhe_int)

lemma ulp_pos: "0 < ulp x"
  by (simp add: ulp_def pow2_pos)

lemma round_double_pos:
  "0 < x \<Longrightarrow> round_double x = of_int (round_half_even (x / ulp x)) * ulp x"
  by (simp add: round_double_def ulp_def fexp_def Let_def)

lemma round_double_zero: "round_double 0 = 0"
  by (simp add: round_double_def)

lemma round_double_nonneg: "0 \<le> x \<Longrightarrow> 0 \<le> round_double x"
proof (cases "x = 0")
  case True
  then show ?thesis by (simp add: round_double_zero)
next
  case False
  assume "0 \<le> x"
  with False have x: "0 < x" by simp
  have "0 \<le> x / ulp x" using x ulp_pos[of x] by simp
  then have "0 \<le> round_half_even (x / ulp x)" using rhe_ge[of 0 "x / ulp x"] by simp
  then show ?thesis using ulp_pos[of x] by (simp add: round_double_pos[OF x])
qed

lemma round_double_err:
  assumes "0 < x"
  shows "\<bar>round_double x - x\<bar> \<le> ulp x / 2"
proof -
  have u: "0 < ulp x" by (rule ulp_pos)
  have "round_double x - x = (of_int (round_half_even (x / ulp x)) - x / ulp x) * ulp x"
    using u by (simp add: round_double_pos[OF assms] field_simps)
  then have "\<bar>round_double x - x\<bar> = \<bar>of_int (round_half_even (x / ulp x)) - x / ulp x\<bar> * ulp x"
    using u by (simp add: abs_mult)
  also have "\<dots> \<le> (1 / 2) * ulp x"
    using rhe_err[of "x / ulp x"] u by (intro mult_right_mono) simp_all
  finally show ?thesis by simp
qed

lemma ulp_le:
  assumes "0 < x"
  shows "ulp x \<le> x / 2 ^ 52 \<or> ulp x = 1 / 2 ^ 1074"
proof (cases "ilog2 x \<le> - 1022")
  case True
  then have "fexp x = - 1022" using assms by (simp add: fexp_def)
  then show ?thesis by (simp add: ulp_def pow2_def)
next
  case False
  then have "fexp x = ilog2 x" using assms by (simp add: fexp_def)
  then have "ulp x = pow2 (ilog2 x) * pow2 (- 52)"
    by (simp add: ulp_def pow2_add[symmetric])
  also have "\<dots> \<le> x * pow2 (- 52)"
    using ilog2_bounds(1)[OF assms] pow2_pos[of "- 52"] by (simp add: mult_right_mono)
  finally show ?thesis by (simp add: pow2_def)
qed

lemma round_double_minus: "round_double (- x) = - round_double x"
  by (simp add: round_double_def Let_def)

lemma round_double_mixed: "\<bar>round_double x - x\<bar> \<le> \<bar>x\<bar> / 2 ^ 53 + 1 / 2 ^ 1075"
proof -
  have pos: "\<bar>round_double y - y\<bar> \<le> y / 2 ^ 53 + 1 / 2 ^ 1075" if "0 < y" for y
  proof -
    from ulp_le[OF that] have "ulp y / 2 \<le> y / 2 ^ 53 + 1 / 2 ^ 1075"
    proof
      assume "ulp y \<le> y / 2 ^ 52"
      then have "ulp y / 2 \<le> y / 2 ^ 53" by simp
      then show ?thesis by (simp add: add_increasing2)
    next
      assume "ulp y = 1 / 2 ^ 1074"
      then have "ulp y / 2 = 1 / 2 ^ 1075" by simp
      then show ?thesis using that by simp
    qed
    with round_double_err[OF that] show ?thesis by linarith
  qed
  consider "x = 0" | "0 < x" | "x < 0" by linarith
  then show ?thesis
  proof cases
    case 1
    then show ?thesis by (simp add: round_double_zero)
  next
    case 2
    with pos[OF 2] show ?thesis by simp
  next
    case 3
    then have "0 < - x" by simp
    from pos[OF this] show ?thesis using 3 by (simp add: round_double_minus abs_minus_commute)
  qed
qed



lemma fexp_pos: "0 < x \<Longrightarrow> fexp x = max (ilog2 x) (- 1022)"
  by (simp add: fexp_def)


lemma pow2_52: "pow2 e = 2 ^ 52 * pow2 (e - 52)"
proof -
  have "e = 52 + (e - 52)" by simp
  then have "pow2 e = pow2 (52 + (e - 52))" by (simp only:)
  also have "\<dots> = pow2 52 * pow2 (e - 52)" by (rule pow2_add)
  finally show ?thesis by (simp add: pow2_def)
qed

lemma pow2_53: "pow2 (e + 1) = 2 ^ 53 * pow2 (e - 52)"
proof -
  have "e + 1 = 53 + (e - 52)" by simp
  then have "pow2 (e + 1) = pow2 (53 + (e - 52))" by (simp only:)
  also have "\<dots> = pow2 53 * pow2 (e - 52)" by (rule pow2_add)
  finally show ?thesis by (simp add: pow2_def)
qed


lemma less_pow2_fexp: "0 < x \<Longrightarrow> x < pow2 (fexp x + 1)"
proof -
  assume x: "0 < x"
  have "x < pow2 (ilog2 x + 1)" by (rule ilog2_bounds(2)[OF x])
  also have "\<dots> \<le> pow2 (fexp x + 1)" by (simp add: pow2_le_iff fexp_pos[OF x])
  finally show ?thesis .
qed



text \<open>Every multiple \<open>k * 2 ^ (E - 52)\<close> with at most 53 bits is a binary64 number.\<close>

lemma round_double_fixed:
  assumes "0 \<le> k" and "k \<le> 2 ^ 53" and "- 1022 \<le> E"
  shows "round_double (of_int k * pow2 (E - 52)) = of_int k * pow2 (E - 52)"
proof (cases "k = 0")
  case True
  then show ?thesis by (simp add: round_double_zero)
next
  case False
  define r where "r = (of_int k :: rat) * pow2 (E - 52)"
  from False assms(1) have k: "0 < k" by simp
  then have r: "0 < r" by (simp add: r_def pow2_pos)
  have "\<exists>j. r / ulp r = of_int j"
  proof (cases "k = 2 ^ 53")
    case True
    then have rp: "r = pow2 (E + 1)" by (simp add: r_def pow2_53[of E])
    then have "ilog2 r = E + 1"
      by (intro ilog2_unique) (simp_all add: pow2_less_iff)
    then have "fexp r = E + 1" using assms(3) r by (simp add: fexp_pos)
    then have "ulp r = pow2 (E + 1 - 52)" by (simp add: ulp_def)
    then have "r / ulp r = 2 ^ 52"
      using pow2_pos[of "E + 1 - 52"] by (simp add: rp pow2_52[of "E + 1"])
    then have "r / ulp r = of_int (2 ^ 52)" by simp
    then show ?thesis by blast
  next
    case False
    with assms(2) have "k < 2 ^ 53" by simp
    then have "(of_int k :: rat) < of_int (2 ^ 53)" by (simp only: of_int_less_iff)
    then have "r < pow2 (E + 1)"
      using pow2_pos[of "E - 52"] by (simp add: r_def pow2_53[of E])
    with ilog2_bounds(1)[OF r] have "pow2 (ilog2 r) < pow2 (E + 1)" by simp
    then have "ilog2 r \<le> E" by (simp add: pow2_less_iff)
    then have fe: "fexp r \<le> E" using assms(3) r by (simp add: fexp_pos)
    define n where "n = nat (E - fexp r)"
    have "pow2 (E - 52) = pow2 (int n + (fexp r - 52))" using fe by (simp add: n_def)
    also have "\<dots> = 2 ^ n * pow2 (fexp r - 52)" by (simp add: pow2_add pow2_nat)
    finally have "r = of_int k * 2 ^ n * ulp r" by (simp add: r_def ulp_def)
    moreover define U where "U = ulp r"
    ultimately have "r = of_int k * 2 ^ n * U" and "0 < U" using ulp_pos[of r] by simp_all
    then have "r / U = of_int k * 2 ^ n" by simp
    then have "r / ulp r = of_int k * 2 ^ n" by (simp add: U_def)
    then have "r / ulp r = of_int (k * 2 ^ n)" by simp
    then show ?thesis by blast
  qed
  then obtain j where j: "r / ulp r = of_int j" by blast
  then have "round_double r = of_int j * ulp r"
    by (simp add: round_double_pos[OF r] rhe_int)
  also have "\<dots> = r" using j ulp_pos[of r] by (simp add: field_simps)
  finally show ?thesis by (simp add: r_def)
qed

lemma round_double_idem:
  assumes "0 \<le> x"
  shows "round_double (round_double x) = round_double x"
proof (cases "x = 0")
  case True
  then show ?thesis by (simp add: round_double_zero)
next
  case False
  with assms have x: "0 < x" by simp
  define k where "k = round_half_even (x / ulp x)"
  have u: "0 < ulp x" by (rule ulp_pos)
  have "0 \<le> x / ulp x" using x u by simp
  then have k0: "0 \<le> k" using rhe_ge[of 0 "x / ulp x"] by (simp add: k_def)
  have "x / ulp x \<le> 2 ^ 53"
    using less_pow2_fexp[OF x] u by (simp add: pow2_53[of "fexp x"] ulp_def pos_divide_le_eq)
  then have "x / ulp x \<le> of_int (2 ^ 53)" by simp
  then have k1: "k \<le> 2 ^ 53" unfolding k_def by (rule rhe_le)
  have e: "- 1022 \<le> fexp x" by (simp add: fexp_def)
  have "round_double x = of_int k * pow2 (fexp x - 52)"
    by (simp add: round_double_pos[OF x] k_def ulp_def)
  then show ?thesis using round_double_fixed[OF k0 k1 e] by simp
qed

lemma round_double_one: "round_double 1 = 1"
  using round_double_fixed[of "2 ^ 52" 0] by (simp add: pow2_def)


section \<open>The computed size\<close>

lemma new_size_eq:
  "0 < w \<Longrightarrow> 0 < h \<Longrightarrow>
   new_size (w, h) = Inr (if w > h then (512, scaled_side h w) else (scaled_side w h, 512))"
  by (simp add: new_size_def fdiv_def and_then_def scaled_side_def)

lemma scaled_side_bounds:
  assumes "a \<le> b" and "0 < b" and "b < 2 ^ 31"
  shows "0 \<le> scaled_side a b" and "scaled_side a b \<le> 512"
    and "\<bar>scaled_side a b * int b - 512 * int a\<bar> \<le> int b"
proof -
  define X :: rat where "X = 512 * of_nat a / of_nat b"
  define k where "k = round_double (512 / of_nat b)"
  define y where "y = round_double (of_nat a * k)"
  define n where "n = scaled_side a b"
  have b0: "(0::rat) < of_nat b" using assms(2) by simp
  have ab: "(of_nat a :: rat) \<le> of_nat b" using assms(1) by simp
  have bb: "(of_nat b :: rat) < 2 ^ 31"
  proof -
    have "(of_nat b :: rat) < of_nat (2 ^ 31)" using assms(3) by (simp only: of_nat_less_iff)
    then show ?thesis by simp
  qed
  have X0: "0 \<le> X" by (simp add: X_def)
  have X512: "X \<le> 512" using ab b0 by (simp add: X_def pos_divide_le_eq)
  have k0: "0 \<le> k" unfolding k_def by (rule round_double_nonneg) simp
  have "\<bar>k - 512 / of_nat b\<bar> \<le> \<bar>512 / of_nat b\<bar> / 2 ^ 53 + 1 / 2 ^ 1075"
    unfolding k_def by (rule round_double_mixed)
  then have ke: "\<bar>k - 512 / of_nat b\<bar> \<le> (512 / of_nat b) / 2 ^ 53 + 1 / 2 ^ 1075" by simp
  have "\<bar>of_nat a * k - X\<bar> = of_nat a * \<bar>k - 512 / of_nat b\<bar>"
  proof -
    have "of_nat a * k - X = of_nat a * (k - 512 / of_nat b)"
      by (simp add: X_def algebra_simps)
    then show ?thesis by (simp add: abs_mult)
  qed
  also have "\<dots> \<le> of_nat a * ((512 / of_nat b) / 2 ^ 53 + 1 / 2 ^ 1075)"
    using ke by (simp add: mult_left_mono)
  also have "\<dots> = X / 2 ^ 53 + of_nat a / 2 ^ 1075"
    by (simp add: X_def algebra_simps)
  also have "\<dots> \<le> 512 / 2 ^ 53 + 2 ^ 31 / 2 ^ 1075"
  proof -
    have "X / 2 ^ 53 \<le> 512 / 2 ^ 53" using X512 by (simp add: divide_right_mono)
    moreover have "(of_nat a :: rat) / 2 ^ 1075 \<le> 2 ^ 31 / 2 ^ 1075"
    proof -
      have "(of_nat a :: rat) \<le> 2 ^ 31" using ab bb by linarith
      then show ?thesis by (rule divide_right_mono) simp
    qed
    ultimately show ?thesis by (rule add_mono)
  qed
  finally have e1: "\<bar>of_nat a * k - X\<bar> \<le> 512 / 2 ^ 53 + 2 ^ 31 / 2 ^ 1075" .
  define d :: rat where "d = 1 / 2 ^ 43"
  have d1: "0 < d" "d \<le> 1" "2 * d < 1" by (simp_all add: d_def)
  have d2: "2 * d < 1 / 2 ^ 31" by (simp add: d_def)
  have small1: "(512::rat) / 2 ^ 53 + 2 ^ 31 / 2 ^ 1075 \<le> d" by (simp add: d_def)
  have e1': "\<bar>of_nat a * k - X\<bar> \<le> d" by (rule order_trans[OF e1 small1])
  have ak: "\<bar>of_nat a * k\<bar> \<le> 513" using e1' d1 X0 X512 by linarith
  have "\<bar>y - of_nat a * k\<bar> \<le> \<bar>of_nat a * k\<bar> / 2 ^ 53 + 1 / 2 ^ 1075"
    unfolding y_def by (rule round_double_mixed)
  also have "\<dots> \<le> 513 / 2 ^ 53 + 1 / 2 ^ 1075"
    using ak by (simp add: divide_right_mono)
  finally have e2: "\<bar>y - of_nat a * k\<bar> \<le> 513 / 2 ^ 53 + 1 / 2 ^ 1075" .
  have small2: "(513::rat) / 2 ^ 53 + 1 / 2 ^ 1075 \<le> d" by (simp add: d_def)
  have e2': "\<bar>y - of_nat a * k\<bar> \<le> d" by (rule order_trans[OF e2 small2])
  have e: "\<bar>y - X\<bar> \<le> 2 * d" using e1' e2' by linarith
  have y0: "0 \<le> y" unfolding y_def
    by (rule round_double_nonneg) (use k0 in simp)
  have n: "n = \<lfloor>y\<rfloor>"
    using y0 by (simp add: n_def scaled_side_def py_int_def fmul_def y_def k_def)
  show "0 \<le> scaled_side a b" using n y0 by (simp add: n_def[symmetric])
  have le: "of_int n \<le> y" and gt: "y < of_int n + 1" unfolding n by linarith+
  have nX: "of_int n \<le> X + 2 * d" using le e by linarith
  then have "(of_int n :: rat) < 513" using X512 d1 by linarith
  then have "(of_int n :: rat) < of_int 513" by simp
  then have "n < 513" by (simp only: of_int_less_iff)
  then show "scaled_side a b \<le> 512" by (simp add: n_def[symmetric])
  have up: "of_int n * of_nat b \<le> 512 * of_nat a + (of_nat b :: rat)"
  proof -
    have "of_int n \<le> X + 1" using nX d1 by linarith
    then have "of_int n * of_nat b \<le> (X + 1) * of_nat b" using b0 by (simp add: mult_right_mono)
    also have "\<dots> = 512 * of_nat a + of_nat b" using b0 by (simp add: X_def field_simps)
    finally show ?thesis .
  qed
  have low: "512 * int a \<le> (n + 1) * int b"
  proof (rule ccontr)
    assume "\<not> 512 * int a \<le> (n + 1) * int b"
    then have "(n + 1) * int b + 1 \<le> 512 * int a" by simp
    then have "(of_int ((n + 1) * int b + 1) :: rat) \<le> of_int (512 * int a)"
      by (simp only: of_int_le_iff)
    then have "(of_int n + 1) * of_nat b + 1 \<le> 512 * (of_nat a :: rat)" by simp
    then have "((of_int n + 1) * of_nat b + 1) / of_nat b \<le> 512 * of_nat a / (of_nat b :: rat)"
      using b0 by (intro divide_right_mono) simp_all
    moreover have "((of_int n + 1) * of_nat b + 1) / of_nat b = (of_int n + 1) + 1 / (of_nat b :: rat)"
      using b0 by (simp add: add_divide_distrib)
    ultimately have "(of_int n + 1) + 1 / of_nat b \<le> X"
      by (simp add: X_def)
    moreover have "1 / 2 ^ 31 < 1 / (of_nat b :: rat)"
      using bb b0 by (simp add: frac_less2)
    moreover have "X \<le> y + 2 * d" using e by linarith
    ultimately have "of_int n + 1 + 1 / 2 ^ 31 < y + 2 * d" by linarith
    with gt d2 show False by linarith
  qed
  have "n * int b \<le> 512 * int a + int b"
  proof -
    have "(of_int (n * int b) :: rat) \<le> of_int (512 * int a + int b)" using up by simp
    then show ?thesis by (simp only: of_int_le_iff)
  qed
  moreover have "512 * int a - int b \<le> n * int b" using low by (simp add: algebra_simps)
  ultimately show "\<bar>scaled_side a b * int b - 512 * int a\<bar> \<le> int b"
    by (simp add: n_def[symmetric] abs_le_iff)
qed


section \<open>Bytes as floats\<close>

lemma round_double_small:
  assumes "\<bar>x\<bar> \<le> 1024"
  shows "\<bar>round_double x - x\<bar> \<le> 1 / 2 ^ 42"
proof -
  have "\<bar>round_double x - x\<bar> \<le> \<bar>x\<bar> / 2 ^ 53 + 1 / 2 ^ 1075" by (rule round_double_mixed)
  also have "\<dots> \<le> 1024 / 2 ^ 53 + 1 / 2 ^ 1075"
    using assms by (simp add: divide_right_mono)
  also have "\<dots> \<le> 1 / 2 ^ 42" by simp
  finally show ?thesis .
qed






















section \<open>Hue lock with unit multipliers\<close>

























section \<open>Canvas normalizer\<close>

lemma round_double_512: "round_double 512 = 512"
  using round_double_fixed[of "2 ^ 52" 9] by (simp add: pow2_def)

lemma new_size_512: "new_size (512, 512) = Inr (512, 512)"
  by (simp add: new_size_def fdiv_def fmul_def and_then_def round_double_one round_double_512
      py_int_def)

lemma scaled_side_thin: "scaled_side 1 513 = 0"
proof -
  define k where "k = round_double (512 / 513)"
  have k0: "0 \<le> k" unfolding k_def by (rule round_double_nonneg) simp
  have "\<bar>k - 512 / 513\<bar> \<le> 1 / 2 ^ 42" unfolding k_def by (rule round_double_small) simp
  moreover have "(512::rat) / 513 + 1 / 2 ^ 42 < 1" by simp
  ultimately have k1: "k < 1" by linarith
  have "round_double k = k" unfolding k_def by (rule round_double_idem) simp
  then have "fmul 1 k = k" by (simp add: fmul_def)
  moreover have "\<lfloor>k\<rfloor> = 0" using k0 k1 by linarith
  ultimately show ?thesis using k0 by (simp add: scaled_side_def k_def py_int_def)
qed

lemma new_size_thin: "new_size (1, 513) = Inr (0, 512)"
  using new_size_eq[of 1 513] scaled_side_thin by simp

lemma resize_ok:
  assumes "1 \<le> nw" and "1 \<le> nh"
  shows "\<exists>resized. resize lz im (nw, nh) = Inr resized \<and> isize resized = (nat nw, nat nh)"
proof (cases "(int (iwidth im), int (iheight im)) = (nw, nh)")
  case True
  then have "isize im = (nat nw, nat nh)"
    by (cases "isize im") (auto simp: iwidth_def iheight_def)
  with True show ?thesis by (simp add: resize_def)
next
  case False
  with assms show ?thesis by (auto simp: resize_def)
qed

lemma resize_rejects:
  assumes "nw < 1 \<or> nh < 1" and "0 < iwidth im" and "0 < iheight im"
  shows "resize lz im (nw, nh) = Inl ValueError"
  using assms by (auto simp: resize_def)

text \<open>
  The size computed for a source of sides below \<open>2 ^ 31\<close>: the longer side becomes 512,
  the shorter one is within one pixel of \<open>512 * shorter / longer\<close> and may be 0. The
  resized copy is pasted at the centring offsets unless the shorter side is 0, in which
  case the resize is rejected.
\<close>

lemma normalize_sizes:
  assumes "isize im = (w, h)" and "0 < w" and "0 < h" and "w < 2 ^ 31" and "h < 2 ^ 31"
  shows "\<exists>nw nh. new_size (w, h) = Inr (nw, nh) \<and> max nw nh = 512 \<and> 0 \<le> nw \<and> 0 \<le> nh \<and>
           (if w > h then nw = 512 \<and> \<bar>nh * int w - 512 * int h\<bar> \<le> int w
            else nh = 512 \<and> \<bar>nw * int h - 512 * int w\<bar> \<le> int h) \<and>
           (if nw < 1 \<or> nh < 1 then resize_and_center_512 lz im = Inl ValueError
            else (\<exists>resized. resize lz im (nw, nh) = Inr resized \<and>
                    isize resized = (nat nw, nat nh) \<and>
                    resize_and_center_512 lz im =
                      Inr (paste (Image_new (512, 512) (0, 0, 0, 0)) resized
                             ((512 - nw) div 2, (512 - nh) div 2) resized)))"
proof -
  define nw where "nw = (if w > h then 512 else scaled_side w h)"
  define nh where "nh = (if w > h then scaled_side h w else 512)"
  have ns: "new_size (w, h) = Inr (nw, nh)"
    using assms(2,3) by (simp add: new_size_eq nw_def nh_def)
  have b: "0 \<le> nw \<and> 0 \<le> nh \<and> max nw nh = 512 \<and>
      (if w > h then nw = 512 \<and> \<bar>nh * int w - 512 * int h\<bar> \<le> int w
       else nh = 512 \<and> \<bar>nw * int h - 512 * int w\<bar> \<le> int h)"
  proof (cases "w > h")
    case True
    then have hw: "h \<le> w" by simp
    from scaled_side_bounds[OF hw assms(2,4)] True show ?thesis
      by (simp add: nw_def nh_def)
  next
    case False
    then have wh: "w \<le> h" by simp
    from scaled_side_bounds[OF wh assms(3,5)] False show ?thesis
      by (simp add: nw_def nh_def)
  qed
  have wd: "0 < iwidth im" "0 < iheight im"
    using assms(1-3) by (simp_all add: iwidth_def iheight_def)
  have r: "if nw < 1 \<or> nh < 1 then resize_and_center_512 lz im = Inl ValueError
      else (\<exists>resized. resize lz im (nw, nh) = Inr resized \<and> isize resized = (nat nw, nat nh) \<and>
              resize_and_center_512 lz im =
                Inr (paste (Image_new (512, 512) (0, 0, 0, 0)) resized
                       ((512 - nw) div 2, (512 - nh) div 2) resized))"
  proof (cases "nw < 1 \<or> nh < 1")
    case True
    from resize_rejects[OF True wd] True show ?thesis
      by (simp add: resize_and_center_512_def assms(1) ns and_then_def)
  next
    case False
    then have "1 \<le> nw" "1 \<le> nh" by simp_all
    from resize_ok[OF this, of lz im] obtain resized where
      "resize lz im (nw, nh) = Inr resized" "isize resized = (nat nw, nat nh)" by blast
    then show ?thesis using False
      by (simp add: resize_and_center_512_def assms(1) ns and_then_def)
  qed
  from ns b r show ?thesis by blast
qed

lemma div255_255: "c \<le> 255 \<Longrightarrow> div255 (c * 255) = c"
  unfolding div255_def Let_def by arith

lemma blend_opaque: "blend 255 c1 c2 = c2"
proof -
  have "unat c2 \<le> 255" using unsigned_less[of c2, where 'a=nat] by simp
  then show ?thesis by (simp add: blend_def div255_255)
qed

lemma blend_zero: "blend 0 0 0 = 0"
  by (simp add: blend_def div255_def)

lemma normalize_512:
  assumes "isize im = (512, 512)"
  shows "resize_and_center_512 lz im = Inr (paste (Image_new (512, 512) (0, 0, 0, 0)) im (0, 0) im)"
  using assms
  by (simp add: resize_and_center_512_def new_size_512 and_then_def resize_def iwidth_def iheight_def)

lemma pix_paste_self:
  assumes "isize im = (512, 512)" and "x < 512" and "y < 512"
  shows "pix (paste (Image_new (512, 512) (0, 0, 0, 0)) im (0, 0) im) x y =
     (blend (alpha (pix im x y)) 0 (red (pix im x y)),
      blend (alpha (pix im x y)) 0 (green (pix im x y)),
      blend (alpha (pix im x y)) 0 (blue (pix im x y)),
      blend (alpha (pix im x y)) 0 (alpha (pix im x y)))"
  using assms
  by (simp add: paste_def Image_new_def iwidth_def iheight_def Let_def red_def green_def blue_def
      alpha_def split: prod.splits)

lemma square_bound:
  assumes "1 \<le> n" and "n \<le> 254"
  shows "n * n + 254 \<le> 255 * (n::nat)"
proof -
  obtain k where n: "n = Suc k" using assms(1) by (cases n) auto
  have "k \<le> 253" using assms(2) n by simp
  then have "k * k \<le> 253 * k" by (rule mult_le_mono1)
  then show ?thesis by (simp add: n)
qed

lemma div255_square_less:
  assumes "1 \<le> n" and "n \<le> 254"
  shows "div255 (n * n) < n"
proof -
  define x where "x = n * n"
  have "x + 254 \<le> 255 * n" unfolding x_def by (rule square_bound[OF assms])
  then have "((x + 128) div 256 + (x + 128)) div 256 < n" by arith
  then show ?thesis by (simp add: div255_def x_def Let_def)
qed

lemma blend_transparent: "blend 0 0 c = 0"
  by (simp add: blend_def div255_def)

lemma blend_self_fixed:
  assumes "blend a 0 a = a"
  shows "a = 0 \<or> a = 255"
proof (rule ccontr)
  assume n: "\<not> (a = 0 \<or> a = 255)"
  define k where "k = unat a"
  have k: "k < 256" using unsigned_less[of a, where 'a=nat] by (simp add: k_def)
  have "k \<noteq> 0" using n by (simp add: k_def unat_eq_0)
  moreover have "k \<noteq> 255"
  proof
    assume "k = 255"
    then have "unat a = unat (255 :: u8)" by (simp add: k_def)
    then have "a = 255" by (simp only: word_unat_eq_iff)
    with n show False by simp
  qed
  ultimately have r: "1 \<le> k" "k \<le> 254" using k by simp_all
  have lt: "div255 (k * k) < k" by (rule div255_square_less[OF r])
  from assms have "unat (of_nat (div255 (k * k)) :: u8) = k"
    by (simp add: blend_def k_def)
  moreover have "unat (of_nat (div255 (k * k)) :: u8) = div255 (k * k)"
    by (rule of_nat_inverse[OF refl]) (use lt k in simp)
  ultimately show False using lt by simp
qed


text \<open>
  C2, as the code has it. The normalizer returns a 512 by 512 buffer unchanged exactly
  when every pixel of it is opaque or is the transparent black \<open>(0, 0, 0, 0)\<close>.
\<close>

theorem normalize_unchanged_iff:
  assumes "isize im = (512, 512)"
  shows "returns_same_buffer (resize_and_center_512 lz im) im \<longleftrightarrow>
           (\<forall>x<512. \<forall>y<512. alpha (pix im x y) = 255 \<or> pix im x y = (0, 0, 0, 0))"
proof -
  define P where "P = paste (Image_new (512, 512) (0, 0, 0, 0)) im (0, 0) im"
  have sz: "isize P = (512, 512)" by (simp add: P_def paste_def Image_new_def)
  have rs: "returns_same_buffer (resize_and_center_512 lz im) im \<longleftrightarrow>
      (\<forall>x<512. \<forall>y<512. pix P x y = pix im x y)"
    using assms sz
    by (simp add: returns_same_buffer_def normalize_512[OF assms] P_def[symmetric] same_buffer_def
        iwidth_def iheight_def)
  have px: "pix P x y = pix im x y \<longleftrightarrow> alpha (pix im x y) = 255 \<or> pix im x y = (0, 0, 0, 0)"
    if "x < 512" "y < 512" for x y
  proof -
    obtain r g b a where p: "pix im x y = (r, g, b, a)" by (cases "pix im x y") auto
    have pp: "pix P x y = (blend a 0 r, blend a 0 g, blend a 0 b, blend a 0 a)"
      unfolding P_def by (simp add: pix_paste_self[OF assms that] p red_def green_def blue_def alpha_def)
    show ?thesis
    proof
      assume "pix P x y = pix im x y"
      then have e: "blend a 0 r = r" "blend a 0 g = g" "blend a 0 b = b" "blend a 0 a = a"
        by (simp_all add: pp p)
      from blend_self_fixed[OF e(4)] show "alpha (pix im x y) = 255 \<or> pix im x y = (0, 0, 0, 0)"
      proof
        assume "a = 0"
        with e show ?thesis by (simp add: p blend_transparent)
      next
        assume "a = 255"
        then show ?thesis by (simp add: p alpha_def)
      qed
    next
      assume "alpha (pix im x y) = 255 \<or> pix im x y = (0, 0, 0, 0)"
      then show "pix P x y = pix im x y"
        by (auto simp: pp p alpha_def blend_opaque blend_zero)
    qed
  qed
  show ?thesis unfolding rs using px by blast
qed

theorem normalize_unchanged_iff_witness:
  "isize (Image_new (512, 512) (10, 20, 30, 255)) = (512, 512) \<and>
   returns_same_buffer
     (resize_and_center_512 flat_resampler (Image_new (512, 512) (10, 20, 30, 255)))
     (Image_new (512, 512) (10, 20, 30, 255))"
proof -
  have s: "isize (Image_new (512, 512) (10, 20, 30, 255)) = (512, 512)"
    by (simp add: Image_new_def)
  have a: "\<forall>x<512. \<forall>y<512. alpha (pix (Image_new (512, 512) (10, 20, 30, 255)) x y) = 255 \<or>
      pix (Image_new (512, 512) (10, 20, 30, 255)) x y = (0, 0, 0, 0)"
    by (simp add: Image_new_def alpha_def)
  from normalize_unchanged_iff[OF s, of flat_resampler] a s show ?thesis by simp
qed

text \<open>
  C2 as stated fails on a translucent buffer: the paste uses the image as its own mask
  and so mixes the alpha byte too; the 512 by 512 buffer filled with
  \<open>(10, 20, 30, 128)\<close> does not come back unchanged (its alpha becomes 64).
\<close>

theorem normalize_translucent_counterexample:
  "\<not> returns_same_buffer
       (resize_and_center_512 flat_resampler (Image_new (512, 512) (10, 20, 30, 128)))
       (Image_new (512, 512) (10, 20, 30, 128))"
proof
  define I where "I = Image_new (512, 512) (10, 20, 30, 128)"
  define P where "P = paste (Image_new (512, 512) (0, 0, 0, 0)) I (0, 0) I"
  assume "returns_same_buffer
       (resize_and_center_512 flat_resampler (Image_new (512, 512) (10, 20, 30, 128)))
       (Image_new (512, 512) (10, 20, 30, 128))"
  then have a: "returns_same_buffer (resize_and_center_512 flat_resampler I) I"
    by (simp add: I_def)
  have s: "isize I = (512, 512)" by (simp add: I_def Image_new_def)
  from a have "same_buffer P I"
    by (simp add: returns_same_buffer_def normalize_512[OF s] P_def)
  moreover have "isize P = (512, 512)"
    by (simp add: P_def paste_def Image_new_def)
  ultimately have "\<forall>x<512. \<forall>y<512. pix P x y = pix I x y"
    by (simp add: same_buffer_def iwidth_def iheight_def)
  then have e1: "pix P 0 0 = pix I 0 0" by simp
  have "alpha (pix P 0 0) = blend (alpha (pix I 0 0)) 0 (alpha (pix I 0 0))"
    unfolding P_def by (simp add: pix_paste_self[OF s] alpha_def)
  with e1 have "alpha (pix I 0 0) = blend (alpha (pix I 0 0)) 0 (alpha (pix I 0 0))"
    by simp
  then show False
    by (simp add: I_def Image_new_def alpha_def blend_def div255_def)
qed

text \<open>
  C3 at a failing input. For a source one pixel wide and 513 high the computed size is
  \<open>(0, 512)\<close>; the resize rejects it, so the normalizer raises \<open>ValueError\<close> and
  pastes nothing.
\<close>

theorem normalize_thin_image_raises:
  "resize_and_center_512 lz \<lparr>isize = (1, 513), pix = px\<rparr> = Inl ValueError"
proof -
  have "new_size (isize \<lparr>isize = (1, 513), pix = px\<rparr>) = Inr (0, 512)"
    using new_size_thin by simp
  then show ?thesis
    by (simp add: resize_and_center_512_def and_then_def resize_def iwidth_def iheight_def)
qed

end
